theory Spec2Isabelle
  imports Complex_Main "HOL-Library.Char_ord" "HOL-Library.List_Lexorder" "HOL-Library.Sublist"
    "HOL-Library.Multiset"
begin

section \<open>Strings, paths and configuration\<close>

text \<open>
  Python strings are modelled as \<^typ>\<open>string\<close> holding the UTF-8 bytes of the text.
  The tests the program makes on strings (\<open>endswith\<close> and \<open>startswith\<close> with ASCII
  arguments, substring containment of ASCII text, comparison) give the same answer on the
  bytes as on the code points. A path is the list of its parts, as \<open>Path.parts\<close>
  returns them.
\<close>

type_synonym path = "string list"

text \<open>\<open>config.py\<close>: \<open>SUPPORTED_EXTENSIONS = ['.md', '.txt']\<close>.\<close>

definition SUPPORTED_EXTENSIONS :: "string list" where
  "SUPPORTED_EXTENSIONS = [''.md'', ''.txt'']"

text \<open>\<open>s.endswith(ext)\<close>, \<open>s.startswith(p)\<close> and \<open>sub in s\<close>.\<close>

definition endswith :: "string \<Rightarrow> string \<Rightarrow> bool" where
  "endswith s ext = suffix ext s"

definition startswith :: "string \<Rightarrow> string \<Rightarrow> bool" where
  "startswith s p = prefix p s"

fun contains :: "string \<Rightarrow> string \<Rightarrow> bool" where
  "contains sub [] = (sub = [])"
| "contains sub (c # cs) = (prefix sub (c # cs) \<or> contains sub cs)"

text \<open>\<open>any(name.endswith(ext) for ext in SUPPORTED_EXTENSIONS)\<close>.\<close>

definition supported :: "string \<Rightarrow> bool" where
  "supported name = list_ex (endswith name) SUPPORTED_EXTENSIONS"

text \<open>
  \<open>Path.suffix\<close> of pathlib: with \<open>i = name.rfind('.')\<close>, the suffix is \<open>name[i:]\<close> when
  \<open>0 < i < len(name) - 1\<close> and the empty string otherwise.
\<close>

definition rfind :: "string \<Rightarrow> char \<Rightarrow> nat option" where
  "rfind s c = (if c \<in> set s
                then Some (length s - 1 - length (takeWhile (\<lambda>x. x \<noteq> c) (rev s)))
                else None)"

definition path_suffix :: "string \<Rightarrow> string" where
  "path_suffix name = (case rfind name (CHR ''.'') of
       None \<Rightarrow> []
     | Some i \<Rightarrow> if 0 < i \<and> i < length name - 1 then drop i name else [])"

text \<open>\<open>VaultTreeManager.ignore_patterns\<close> and \<open>VaultTreeManager._should_ignore\<close>.\<close>

definition ignore_patterns :: "string list" where
  "ignore_patterns = [''.obsidian'', ''.git'', ''.DS_Store'', ''__pycache__'',
                      ''node_modules'', ''.vscode'', ''.idea'']"

definition should_ignore :: "path \<Rightarrow> bool" where
  "should_ignore p = list_ex (\<lambda>part. part \<in> set ignore_patterns \<or> startswith part ''.'') p"

section \<open>The directory snapshot\<close>

text \<open>
  What the program reads from the file system; the snapshot does not change while it is
  read. An entry is a regular file, a directory, a symbolic link to a directory
  (\<open>Link\<close>, with what its target holds), or something else (\<open>Other\<close>); \<open>is_dir()\<close>
  follows links, so it holds of \<open>Dir\<close> and of \<open>Link\<close>. Links do not form cycles.

  What a directory holds is one of four things. \<open>Listing es\<close>: it lists its entries, and
  their status can be read. \<open>Denied\<close>: listing it raises a \<open>PermissionError\<close>.
  \<open>Failed msg\<close>: listing it raises any other exception, with \<open>str(e) = msg\<close>.
  \<open>Unsearchable names\<close>: it lists the names of its entries, but reading the status of
  any of them raises a \<open>PermissionError\<close> (a directory that can be read and not
  searched).
\<close>

datatype node = File string | Other string | Dir string contents | Link string contents
and contents = Listing "node list" | Denied | Failed string | Unsearchable "string list"

fun node_name :: "node \<Rightarrow> string" where
  "node_name (File n) = n"
| "node_name (Other n) = n"
| "node_name (Dir n c) = n"
| "node_name (Link n c) = n"

fun is_dir :: "node \<Rightarrow> bool" where
  "is_dir (Dir n c) = True"
| "is_dir (Link n c) = True"
| "is_dir _ = False"

fun is_file :: "node \<Rightarrow> bool" where
  "is_file (File n) = True"
| "is_file _ = False"

section \<open>The tree renderer\<close>

text \<open>
  A rendered line, before formatting: \<open>Item prefix is_last is_directory name\<close> is the line
  of an entry, \<open>DeniedMark prefix\<close> and \<open>ErrorMark prefix msg\<close> are the two marker lines.
  \<open>line_text\<close> is the f-string that formats each of them.
\<close>

datatype tline = Item string bool bool string | DeniedMark string | ErrorMark string string

definition branch_last :: string where
  "branch_last = [CHR 0xE2, CHR 0x94, CHR 0x94, CHR 0xE2, CHR 0x94, CHR 0x80,
                  CHR 0xE2, CHR 0x94, CHR 0x80, CHR 0x20]"

definition branch_mid :: string where
  "branch_mid = [CHR 0xE2, CHR 0x94, CHR 0x9C, CHR 0xE2, CHR 0x94, CHR 0x80,
                 CHR 0xE2, CHR 0x94, CHR 0x80, CHR 0x20]"

definition cont_last :: string where
  "cont_last = ''    ''"

definition cont_mid :: string where
  "cont_mid = [CHR 0xE2, CHR 0x94, CHR 0x82, CHR 0x20, CHR 0x20, CHR 0x20]"

definition icon_dir :: string where
  "icon_dir = [CHR 0xF0, CHR 0x9F, CHR 0x93, CHR 0x81]"

definition icon_md :: string where
  "icon_md = [CHR 0xF0, CHR 0x9F, CHR 0x93, CHR 0x9D]"

definition icon_other :: string where
  "icon_other = [CHR 0xF0, CHR 0x9F, CHR 0x93, CHR 0x84]"

definition denied_text :: string where
  "denied_text = [CHR 0xE2, CHR 0x9D, CHR 0x8C, CHR 0x20, CHR 0xEC, CHR 0xA0, CHR 0x91,
                  CHR 0xEA, CHR 0xB7, CHR 0xBC, CHR 0x20, CHR 0xEA, CHR 0xB6, CHR 0x8C,
                  CHR 0xED, CHR 0x95, CHR 0x9C, CHR 0x20, CHR 0xEC, CHR 0x97, CHR 0x86,
                  CHR 0xEC, CHR 0x9D, CHR 0x8C] @ '' / Permission Denied''"

definition error_text :: string where
  "error_text = [CHR 0xE2, CHR 0x9A, CHR 0xA0, CHR 0xEF, CHR 0xB8, CHR 0x8F, CHR 0x20,
                 CHR 0xEC, CHR 0x98, CHR 0xA4, CHR 0xEB, CHR 0xA5, CHR 0x98] @ '': ''"

fun line_text :: "tline \<Rightarrow> string" where
  "line_text (Item pfx is_last isd name) =
     pfx @ (if is_last then branch_last else branch_mid) @
     (if isd then icon_dir @ '' **'' @ name @ ''**''
      else (if path_suffix name = ''.md'' then icon_md else icon_other) @ '' '' @ name)"
| "line_text (DeniedMark pfx) = pfx @ branch_mid @ denied_text"
| "line_text (ErrorMark pfx msg) = pfx @ branch_mid @ error_text @ msg @ '' / Error: '' @ msg"

text \<open>
  Lines 123 to 133: the entries that are not ignored, the directories among them sorted,
  then the files with a supported extension sorted. \<open>sorted\<close> compares \<open>Path\<close> objects,
  which all have the same parent here, so it compares their names.
\<close>

definition visible :: "path \<Rightarrow> node list \<Rightarrow> node list" where
  "visible dir es = filter (\<lambda>item. \<not> should_ignore (dir @ [node_name item])) es"

definition directories :: "path \<Rightarrow> node list \<Rightarrow> node list" where
  "directories dir es = sort_key node_name (filter is_dir (visible dir es))"

definition files :: "path \<Rightarrow> node list \<Rightarrow> node list" where
  "files dir es =
     sort_key node_name (filter (\<lambda>item. is_file item \<and> supported (node_name item)) (visible dir es))"

definition all_items :: "path \<Rightarrow> node list \<Rightarrow> node list" where
  "all_items dir es = directories dir es @ files dir es"

lemma size_list_insort_key:
  "size_list f (insort_key k x xs) = Suc (f x + size_list f xs)"
  by (induction xs) auto

lemma size_list_sort_key: "size_list f (sort_key k xs) = size_list f xs"
  by (induction xs) (auto simp: size_list_insort_key)

lemma size_list_two_filters:
  "(\<And>x. \<not> (P x \<and> Q x)) \<Longrightarrow>
   size_list f (filter P xs) + size_list f (filter Q xs) \<le> size_list f xs"
  by (induction xs) auto

lemma size_list_filter_le: "size_list f (filter P xs) \<le> size_list f xs"
  by (induction xs) auto

lemma is_dir_not_is_file: "\<not> (is_dir x \<and> (is_file x \<and> R x))"
  by (cases x) auto

lemma size_all_items: "size_list size (all_items dir es) \<le> size_list size es"
proof -
  have "size_list size (all_items dir es) \<le> size_list size (visible dir es)"
    unfolding all_items_def directories_def files_def
    using size_list_two_filters [of is_dir _ size "visible dir es", OF is_dir_not_is_file]
    by (simp add: size_list_sort_key)
  also have "\<dots> \<le> size_list size es"
    unfolding visible_def by (rule size_list_filter_le)
  finally show ?thesis .
qed

text \<open>
  \<open>VaultTreeManager._generate_tree_structure\<close>. \<open>render_items\<close> is the \<open>for\<close> loop over
  \<open>all_items\<close>: an item is the last one exactly when nothing follows it, and the
  function calls itself on every item that \<open>is_dir()\<close>, a link to a directory included.
  The \<open>try\<close>/\<open>except\<close> of the function turns a failure to list the directory into one
  marker line. In a directory that cannot be searched, the first \<open>is_dir()\<close> of line 129
  raises the \<open>PermissionError\<close>; it is called when some entry is not ignored.
\<close>

function generate_tree_structure :: "path \<Rightarrow> contents \<Rightarrow> string \<Rightarrow> tline list"
  and render_items :: "path \<Rightarrow> string \<Rightarrow> node list \<Rightarrow> tline list" where
  "generate_tree_structure dir (Listing es) pfx = render_items dir pfx (all_items dir es)"
| "generate_tree_structure dir Denied pfx = [DeniedMark pfx]"
| "generate_tree_structure dir (Failed msg) pfx = [ErrorMark pfx msg]"
| "generate_tree_structure dir (Unsearchable names) pfx =
     (if filter (\<lambda>name. \<not> should_ignore (dir @ [name])) names = [] then []
      else [DeniedMark pfx])"
| "render_items dir pfx [] = []"
| "render_items dir pfx (item # rest) =
     (let is_last_item = (rest = []);
          next_prefix = (if is_last_item then pfx @ cont_last else pfx @ cont_mid)
      in Item pfx is_last_item (is_dir item) (node_name item) #
         (case item of
            Dir n c \<Rightarrow> generate_tree_structure (dir @ [n]) c next_prefix
          | Link n c \<Rightarrow> generate_tree_structure (dir @ [n]) c next_prefix
          | _ \<Rightarrow> []) @
         render_items dir pfx rest)"
  by pat_completeness auto
termination
proof (relation "measure (\<lambda>x. case x of Inl (dir, c, pfx) \<Rightarrow> 2 * size c
                                     | Inr (dir, pfx, items) \<Rightarrow> 2 * size_list size items + 1)",
       goal_cases)
  case 1
  show ?case by simp
next
  case (2 dir es pfx)
  show ?case using size_all_items [of dir es] by simp
next
  case (3 dir pfx item rest x xa x31 x32)
  then show ?case by simp
next
  case (4 dir pfx item rest x xa x41 x42)
  then show ?case by simp
next
  case (5 dir pfx item rest x xa)
  then show ?case by simp
qed

text \<open>
  Reading a rendering back: the prefix a line was written with, and the entries whose
  lines carry exactly the prefix \<open>pfx\<close>, in the order of their lines, each with its
  directory flag and its name. Rendered with prefix \<open>pfx\<close>, a directory writes the lines
  of its own entries with \<open>pfx\<close> and those of deeper entries with a longer prefix.
\<close>

fun line_prefix :: "tline \<Rightarrow> string" where
  "line_prefix (Item p il isd name) = p"
| "line_prefix (DeniedMark p) = p"
| "line_prefix (ErrorMark p msg) = p"

fun child_entries :: "string \<Rightarrow> tline list \<Rightarrow> (bool \<times> string) list" where
  "child_entries pfx [] = []"
| "child_entries pfx (Item p il isd name # ls) =
     (if p = pfx then [(isd, name)] else []) @ child_entries pfx ls"
| "child_entries pfx (DeniedMark p # ls) = child_entries pfx ls"
| "child_entries pfx (ErrorMark p msg # ls) = child_entries pfx ls"

section \<open>Statistics\<close>

record stats =
  total_folders :: nat
  total_files :: nat
  md_files :: nat
  other_files :: nat

text \<open>
  \<open>directory.rglob('*')\<close> is a generator: each step yields the path of a descendant, or
  the iteration raises. \<open>is_dir()\<close> and \<open>is_file()\<close> read the entry's status, which is a
  directory, a regular file, neither, or raises (pathlib re-raises a \<open>PermissionError\<close>
  of \<open>stat\<close>).
\<close>

datatype stat = IsDir | IsFile | Neither | StatError

datatype rglob_step = Yield path stat | Raise

fun stat_of :: "node \<Rightarrow> stat" where
  "stat_of (File n) = IsFile"
| "stat_of (Other n) = Neither"
| "stat_of (Dir n c) = IsDir"
| "stat_of (Link n c) = IsDir"

text \<open>
  What pathlib's \<open>rglob('*')\<close> enumerates on a snapshot: the entries of a directory, then
  the descendants of each subdirectory, hidden names included. It does not enter a link
  to a directory. It skips a directory it has no permission to list; any other failure
  to list one ends the iteration with an exception. It yields the entries of a directory
  that cannot be searched, and the status of each of them cannot be read. The steps after
  a \<open>Raise\<close> or after a status that cannot be read are those the loop of \<open>_count_items\<close>
  never reaches.
\<close>

fun rglob :: "path \<Rightarrow> contents \<Rightarrow> rglob_step list" where
  "rglob dir (Listing es) =
     map (\<lambda>e. Yield (dir @ [node_name e]) (stat_of e)) es @
     concat (map (\<lambda>e. case e of Dir n c \<Rightarrow> rglob (dir @ [n]) c | _ \<Rightarrow> []) es)"
| "rglob dir Denied = []"
| "rglob dir (Failed msg) = [Raise]"
| "rglob dir (Unsearchable names) = map (\<lambda>name. Yield (dir @ [name]) StatError) names"

definition initial_stats :: stats where
  "initial_stats = \<lparr>total_folders = 0, total_files = 0, md_files = 0, other_files = 0\<rparr>"

text \<open>Lines 202 to 206 of \<open>_count_items\<close>: the branch of a regular file.\<close>

definition count_file :: "path \<Rightarrow> stats \<Rightarrow> stats" where
  "count_file p st =
     (let st1 = st\<lparr>total_files := total_files st + 1\<rparr>
      in if path_suffix (last p) = ''.md'' then st1\<lparr>md_files := md_files st1 + 1\<rparr>
         else if supported (last p) then st1\<lparr>other_files := other_files st1 + 1\<rparr>
         else st1)"

text \<open>
  The loop of \<open>_count_items\<close>. An exception, raised by the iteration or by \<open>is_dir()\<close>,
  leaves the loop through \<open>except Exception: pass\<close>, and the counters reached so far are
  returned.
\<close>

fun count_loop :: "rglob_step list \<Rightarrow> stats \<Rightarrow> stats" where
  "count_loop [] st = st"
| "count_loop (Raise # rest) st = st"
| "count_loop (Yield p k # rest) st =
     (if should_ignore p then count_loop rest st
      else case k of
             StatError \<Rightarrow> st
           | IsDir \<Rightarrow> count_loop rest (st\<lparr>total_folders := total_folders st + 1\<rparr>)
           | IsFile \<Rightarrow> count_loop rest (count_file p st)
           | Neither \<Rightarrow> count_loop rest st)"

definition count_items :: "path \<Rightarrow> contents \<Rightarrow> stats" where
  "count_items dir c = count_loop (rglob dir c) initial_stats"





section \<open>The activity log sink\<close>

text \<open>
  An exception that \<open>except Exception\<close> catches, with its message \<open>str(e)\<close>. An operation
  that can raise after it has changed the state returns both: \<open>None\<close> for a normal
  return or \<open>Some e\<close> for the exception, and the state it leaves.
\<close>

datatype exc = Exc string

fun str_exc :: "exc \<Rightarrow> string" where
  "str_exc (Exc msg) = msg"

datatype jvalue = JStr string | JNum nat

record log_entry =
  timestamp :: real
  command :: string
  status :: string
  summary :: "(string \<times> jvalue) list"
  duration :: "real option"
  error :: "string option"

text \<open>
  The two log files. The JSON log is missing, or is \<open>Corrupt\<close> (it exists and reading or
  parsing it raises), or parses to a value that is not a list (\<open>NotList ty\<close>, with the
  name of its Python type), or holds a list of entries, each with the fields that
  \<open>log_activity\<close> writes. A JSON log that is written can be read back. Of the markdown
  log only the entries appended to it are kept; its statistics section is text derived
  from the JSON log. Each file can be opened for writing or not, and the markdown log
  for reading or not.
\<close>

datatype json_file = Missing | Corrupt | NotList string | Holds "log_entry list"

record log_files =
  json_log :: json_file
  json_writable :: bool
  markdown_log :: "log_entry list option"
  markdown_readable :: bool
  markdown_writable :: bool

text \<open>
  \<open>ManagementLogger._append_json_log\<close>. Only the read is inside a \<open>try\<close>. A value that
  is not a list has no \<open>append\<close>: \<open>logs.append\<close> raises an \<open>AttributeError\<close> before the
  file is opened for writing.
\<close>

definition append_json_log :: "log_entry \<Rightarrow> log_files \<Rightarrow> exc option \<times> log_files" where
  "append_json_log log_entry lf =
     (case json_log lf of
        NotList ty \<Rightarrow>
          (Some (Exc ([CHR 0x27] @ ty @ [CHR 0x27] @ '' object has no attribute '' @
                      [CHR 0x27] @ ''append'' @ [CHR 0x27])), lf)
      | _ \<Rightarrow>
          (let logs = (case json_log lf of Holds xs \<Rightarrow> xs | _ \<Rightarrow> []);
               logs1 = logs @ [log_entry];
               logs2 = (if length logs1 > 100 then drop (length logs1 - 100) logs1 else logs1)
           in if json_writable lf then (None, lf\<lparr>json_log := Holds logs2\<rparr>)
              else (Some (Exc ''cannot open management_activities.json for writing''), lf)))"

text \<open>
  \<open>ManagementLogger._append_markdown_log\<close>: formatting \<open>duration\<close> with \<open>:.2f\<close> raises a
  \<open>TypeError\<close> when it is \<open>None\<close>; opening the file in append mode creates it.
\<close>

definition append_markdown_log :: "log_entry \<Rightarrow> log_files \<Rightarrow> exc option \<times> log_files" where
  "append_markdown_log log_entry lf =
     (if duration log_entry = None
      then (Some (Exc ''unsupported format string passed to NoneType.__format__''), lf)
      else if markdown_writable lf
      then (None, lf\<lparr>markdown_log :=
                     Some ((case markdown_log lf of None \<Rightarrow> [] | Some xs \<Rightarrow> xs) @ [log_entry])\<rparr>)
      else (Some (Exc ''cannot open obsidian_management_history.md for appending''), lf))"

text \<open>
  \<open>re.sub(pattern, stats_section, content)\<close> takes \<open>stats_section\<close> as a replacement
  template and raises when a backslash in it starts an escape that the template syntax
  of \<open>re\<close> does not have. The fixed text of \<open>stats_section\<close> and the numbers and the time
  formatted into it hold no backslash; each command name of the JSON log is inserted
  into it, followed by \<open>**\<close>. \<open>template_error\<close> tells whether a text inserted there
  makes \<open>re.sub\<close> raise: a backslash is accepted before \<open>a\<close>, \<open>b\<close>, \<open>f\<close>, \<open>n\<close>, \<open>r\<close>,
  \<open>t\<close>, \<open>v\<close> and before any character that is neither an ASCII letter nor a digit (a
  backslash that ends the inserted text is followed by \<open>*\<close>); \<open>\0\<close> takes up to two more
  octal digits; \<open>\1\<close> to \<open>\9\<close> refer to a group, and the pattern has none, unless three
  octal digits give a value up to \<open>0o377\<close>; \<open>\g<name>\<close> refers to a group, and only
  group 0, written with zeros, exists. This is the rule of Python 3.12 and later, where
  a group number is a sequence of ASCII digits; earlier versions also read a zero with
  a sign, spaces or underscores as group 0.
\<close>

definition octdigit :: "char \<Rightarrow> bool" where
  "octdigit c = (c \<in> set ''01234567'')"

definition digit :: "char \<Rightarrow> bool" where
  "digit c = (c \<in> set ''0123456789'')"

definition ascii_letter :: "char \<Rightarrow> bool" where
  "ascii_letter c =
     (c \<in> set ''abcdefghijklmnopqrstuvwxyzABCDEFGHIJKLMNOPQRSTUVWXYZ'')"

definition group_name :: "string \<Rightarrow> string" where
  "group_name cs = takeWhile (\<lambda>x. x \<noteq> CHR ''>'') cs"

definition after_group :: "string \<Rightarrow> string" where
  "after_group cs = tl (dropWhile (\<lambda>x. x \<noteq> CHR ''>'') cs)"

definition after_octal :: "string \<Rightarrow> string" where
  "after_octal cs = drop (length (takeWhile octdigit (take 2 cs))) cs"

lemma length_after_group: "length (after_group cs) \<le> length cs"
  using length_dropWhile_le [of "\<lambda>x. x \<noteq> CHR ''>''" cs] by (simp add: after_group_def)

lemma length_after_octal: "length (after_octal cs) \<le> length cs"
  by (simp add: after_octal_def)

function (sequential) template_error :: "string \<Rightarrow> bool" where
  "template_error [] = False"
| "template_error [c] = False"
| "template_error (c # d # cs) =
     (if c \<noteq> CHR 0x5C then template_error (d # cs)
      else if d = CHR ''g'' then
        (case cs of
           [] \<Rightarrow> True
         | b # rest \<Rightarrow>
             if b = CHR ''<'' \<and> CHR ''>'' \<in> set rest \<and> group_name rest \<noteq> [] \<and>
                list_all (\<lambda>x. x = CHR ''0'') (group_name rest)
             then template_error (after_group rest)
             else True)
      else if d = CHR ''0'' then template_error (after_octal cs)
      else if digit d then
        (case cs of
           e # f # rest \<Rightarrow>
             if d \<in> set ''123'' \<and> octdigit e \<and> octdigit f then template_error rest else True
         | _ \<Rightarrow> True)
      else if ascii_letter d then
        (if d \<in> set ''abfnrtv'' then template_error cs else True)
      else template_error cs)"
  by pat_completeness auto
termination
proof (relation "measure length", goal_cases)
  case 1
  show ?case by simp
next
  case (2 c d cs)
  then show ?case by simp
next
  case (3 c d cs b rest)
  then show ?case using length_after_group [of rest] by simp
next
  case (4 c d cs)
  then show ?case using length_after_octal [of cs] by simp
next
  case (5 c d cs e list f rest)
  then show ?case by simp
next
  case (6 c d cs)
  then show ?case by simp
next
  case (7 c d cs)
  then show ?case by simp
qed

text \<open>
  The command names that \<open>_calculate_statistics\<close> reads from the JSON log; when it
  cannot read a list of entries it catches the exception and counts no command.
\<close>

definition logged_commands :: "log_files \<Rightarrow> string list" where
  "logged_commands lf = (case json_log lf of Holds xs \<Rightarrow> map command xs | _ \<Rightarrow> [])"

text \<open>
  \<open>ManagementLogger._update_statistics\<close>: computes the statistics, reads the markdown
  log, replaces its statistics section with \<open>re.sub\<close> and writes it back; the entries
  are unchanged.
\<close>

definition update_statistics :: "log_files \<Rightarrow> exc option \<times> log_files" where
  "update_statistics lf =
     (if markdown_log lf = None \<or> \<not> markdown_readable lf
      then (Some (Exc ''cannot open obsidian_management_history.md for reading''), lf)
      else if list_ex template_error (logged_commands lf)
      then (Some (Exc ''bad escape in the replacement template''), lf)
      else if markdown_writable lf then (None, lf)
      else (Some (Exc ''cannot open obsidian_management_history.md for writing''), lf))"

text \<open>\<open>ManagementLogger.log_activity\<close>: the three steps in sequence, with no handler.\<close>

definition log_activity :: "log_entry \<Rightarrow> log_files \<Rightarrow> exc option \<times> log_files" where
  "log_activity log_entry lf =
     (case append_json_log log_entry lf of
        (Some e, lf1) \<Rightarrow> (Some e, lf1)
      | (None, lf1) \<Rightarrow>
          (case append_markdown_log log_entry lf1 of
             (Some e, lf2) \<Rightarrow> (Some e, lf2)
           | (None, lf2) \<Rightarrow> update_statistics lf2))"

text \<open>
  Log files on which every write and the read of the markdown log succeed, whose JSON
  log does not hold a value that is not a list, and none of whose logged command names
  makes \<open>re.sub\<close> raise.
\<close>

definition usable :: "log_files \<Rightarrow> bool" where
  "usable lf =
     (json_writable lf \<and> markdown_writable lf \<and> markdown_readable lf \<and>
      (case json_log lf of NotList ty \<Rightarrow> False | _ \<Rightarrow> True) \<and>
      \<not> list_ex template_error (logged_commands lf))"

section \<open>The tree manager\<close>

text \<open>
  The generated document: of the fixed header and footer text only the values inserted
  into it are kept (vault path, time, counters), with the formatted lines of the tree
  body.
\<close>

record tree_doc =
  doc_path :: path
  doc_time :: real
  doc_stats :: stats
  doc_body :: "string list"

text \<open>What \<open>print\<close> writes; each message stands for the Korean and the English line.\<close>

datatype message =
    TreeUpdated
  | TreeUpdateFailed string
  | AlreadyWatching
  | WatchStarted
  | WatchStartFailed string
  | NotWatching
  | WatchStopped
  | WatchStopFailed string

text \<open>
  A watchdog \<open>Observer\<close> thread: \<open>handle\<close> tells the objects apart, \<open>alive\<close> holds
  between \<open>start()\<close> and \<open>stop()\<close>.
\<close>

record observer_thread =
  handle :: nat
  alive :: bool

text \<open>\<open>VaultTreeEventHandler\<close>: its two fields.\<close>

record handler =
  last_update :: real
  update_delay :: real

text \<open>
  The state of a \<open>VaultTreeManager\<close> and of what it acts on. From the program:
  \<open>vault_path\<close>, \<open>observer\<close>, \<open>is_watching\<close>, the log files of \<open>management_logger\<close>, the
  \<open>tree_file\<close> (the path of the output file, as text), the handler scheduled on the
  observer. From its environment: \<open>vault\<close>, the directory as it is now;
  \<open>tree_file_content\<close>, what the output file holds, and whether it can be opened for
  writing; \<open>timers\<close>, the due times of the \<open>threading.Timer\<close> objects started and not
  yet fired; \<open>stdout\<close>; \<open>observers_created\<close>, the number of \<open>Observer()\<close> calls so far;
  \<open>observer_starts\<close>, whether \<open>Observer.start()\<close> succeeds.
\<close>

record manager =
  vault_path :: path
  vault :: contents
  tree_file :: string
  tree_file_content :: "tree_doc option"
  tree_file_writable :: bool
  observer :: "observer_thread option"
  is_watching :: bool
  management_logger :: log_files
  event_handler :: "handler option"
  timers :: "real list"
  stdout :: "message list"
  observers_created :: nat
  observer_starts :: bool

text \<open>\<open>str(path)\<close> for a POSIX path.\<close>

fun join_parts :: "string list \<Rightarrow> string" where
  "join_parts [] = []"
| "join_parts [x] = x"
| "join_parts (x # y # ys) = x @ ''/'' @ join_parts (y # ys)"

definition str_path :: "path \<Rightarrow> string" where
  "str_path p = (case p of
       [] \<Rightarrow> ''.''
     | x # xs \<Rightarrow> if x = ''/'' then ''/'' @ join_parts xs else join_parts (x # xs))"

text \<open>
  \<open>VaultTreeManager.generate_tree_markdown\<close>. \<open>now\<close> is the clock when the operation
  runs and \<open>dt\<close> the time it measures for itself. \<open>rendered_doc\<close> is the content it
  builds and \<open>generate_tree_entry\<close> the entry it logs on success. \<open>_count_items\<close> and
  \<open>_generate_tree_structure\<close> catch every exception, so inside the \<open>try\<close> only
  \<open>log_activity\<close> can raise; the handler then logs the error, which can raise again, and
  re-raises.
\<close>

definition rendered_doc :: "real \<Rightarrow> manager \<Rightarrow> tree_doc" where
  "rendered_doc now s =
     \<lparr>doc_path = vault_path s, doc_time = now,
      doc_stats = count_items (vault_path s) (vault s),
      doc_body = map line_text (generate_tree_structure (vault_path s) (vault s) [])\<rparr>"

definition generate_tree_entry :: "real \<Rightarrow> real \<Rightarrow> manager \<Rightarrow> log_entry" where
  "generate_tree_entry now dt s =
     (let stats = count_items (vault_path s) (vault s);
          tree_lines = generate_tree_structure (vault_path s) (vault s) []
      in \<lparr>timestamp = now, command = ''generate_tree'', status = ''success'',
          summary = [(''vault_path'', JStr (str_path (vault_path s))),
                     (''total_folders'', JNum (total_folders stats)),
                     (''total_files'', JNum (total_files stats)),
                     (''md_files'', JNum (md_files stats)),
                     (''tree_lines'', JNum (length tree_lines))],
          duration = Some dt, error = None\<rparr>)"

definition generate_tree_markdown ::
  "real \<Rightarrow> real \<Rightarrow> manager \<Rightarrow> (exc + tree_doc) \<times> manager" where
  "generate_tree_markdown now dt s =
     (let markdown_content = rendered_doc now s
      in case log_activity (generate_tree_entry now dt s) (management_logger s) of
           (None, lf) \<Rightarrow> (Inr markdown_content, s\<lparr>management_logger := lf\<rparr>)
         | (Some e, lf) \<Rightarrow>
             (case log_activity
                     \<lparr>timestamp = now, command = ''generate_tree'', status = ''error'',
                      summary = [(''vault_path'', JStr (str_path (vault_path s)))],
                      duration = Some dt, error = Some (str_exc e)\<rparr> lf of
                (None, lf') \<Rightarrow> (Inl e, s\<lparr>management_logger := lf'\<rparr>)
              | (Some e', lf') \<Rightarrow> (Inl e', s\<lparr>management_logger := lf'\<rparr>)))"

text \<open>
  \<open>VaultTreeManager.update_tree_structure\<close>: the body of the \<open>try\<close>, then the function
  with its handler. The output file is opened for writing after the content has been
  generated; a failed \<open>open\<close> leaves the file as it was.
\<close>

definition update_tree_body :: "real \<Rightarrow> real \<Rightarrow> manager \<Rightarrow> exc option \<times> manager" where
  "update_tree_body now dt s =
     (case generate_tree_markdown now dt s of
        (Inl e, s1) \<Rightarrow> (Some e, s1)
      | (Inr markdown_content, s1) \<Rightarrow>
          if tree_file_writable s1
          then (None, s1\<lparr>tree_file_content := Some markdown_content,
                          stdout := stdout s1 @ [TreeUpdated]\<rparr>)
          else (Some (Exc ''cannot open the tree file for writing''), s1))"

definition update_tree_structure :: "real \<Rightarrow> real \<Rightarrow> manager \<Rightarrow> exc option \<times> manager" where
  "update_tree_structure now dt s =
     (case update_tree_body now dt s of
        (None, s1) \<Rightarrow> (None, s1)
      | (Some e, s1) \<Rightarrow> (None, s1\<lparr>stdout := stdout s1 @ [TreeUpdateFailed (str_exc e)]\<rparr>))"

text \<open>
  The two \<open>log_activity\<close> calls of \<open>start_watching\<close> and \<open>stop_watching\<close>, with the
  manager's log files.
\<close>

definition log_watch ::
  "real \<Rightarrow> string \<Rightarrow> string \<Rightarrow> (string \<times> jvalue) list \<Rightarrow> string option \<Rightarrow> manager \<Rightarrow>
   exc option \<times> manager" where
  "log_watch now cmd st summ err s =
     (case log_activity
             \<lparr>timestamp = now, command = cmd, status = st, summary = summ,
              duration = Some (1 / 10), error = err\<rparr>
             (management_logger s) of
        (r, lf) \<Rightarrow> (r, s\<lparr>management_logger := lf\<rparr>))"

text \<open>
  \<open>VaultTreeManager.start_watching\<close>: the body of the \<open>try\<close>, then the function. An
  exception raised by the \<open>log_activity\<close> call of the handler leaves the function.
\<close>

definition start_watching_body :: "real \<Rightarrow> real \<Rightarrow> manager \<Rightarrow> exc option \<times> manager" where
  "start_watching_body now dt s =
     (case update_tree_structure now dt s of
        (Some e, s1) \<Rightarrow> (Some e, s1)
      | (None, s1) \<Rightarrow>
          (let s2 = s1\<lparr>observer := Some \<lparr>handle = observers_created s1, alive = False\<rparr>,
                       observers_created := observers_created s1 + 1,
                       event_handler := Some \<lparr>last_update = now, update_delay = 2\<rparr>\<rparr>
           in if \<not> observer_starts s2 then (Some (Exc ''cannot start the observer''), s2)
              else log_watch now ''start_watching'' ''success''
                     [(''vault_path'', JStr (str_path (vault_path s))),
                      (''tree_file'', JStr (tree_file s))] None
                     (s2\<lparr>observer := Some \<lparr>handle = observers_created s1, alive = True\<rparr>,
                         is_watching := True,
                         stdout := stdout s2 @ [WatchStarted]\<rparr>)))"

definition start_watching :: "real \<Rightarrow> real \<Rightarrow> manager \<Rightarrow> exc option \<times> manager" where
  "start_watching now dt s =
     (if is_watching s then (None, s\<lparr>stdout := stdout s @ [AlreadyWatching]\<rparr>)
      else case start_watching_body now dt s of
             (None, s1) \<Rightarrow> (None, s1)
           | (Some e, s1) \<Rightarrow>
               log_watch now ''start_watching'' ''error''
                 [(''vault_path'', JStr (str_path (vault_path s)))] (Some (str_exc e))
                 (s1\<lparr>stdout := stdout s1 @ [WatchStartFailed (str_exc e)]\<rparr>))"

text \<open>
  \<open>VaultTreeManager.stop_watching\<close>: \<open>observer.stop()\<close> and \<open>observer.join()\<close> end the
  observer thread. Nothing in it refers to a timer.
\<close>

definition stop_watching_body :: "real \<Rightarrow> manager \<Rightarrow> exc option \<times> manager" where
  "stop_watching_body now s =
     log_watch now ''stop_watching'' ''success''
       [(''vault_path'', JStr (str_path (vault_path s)))] None
       (s\<lparr>observer := map_option (\<lambda>ob. ob\<lparr>alive := False\<rparr>) (observer s),
          is_watching := False,
          stdout := stdout s @ [WatchStopped]\<rparr>)"

definition stop_watching :: "real \<Rightarrow> manager \<Rightarrow> exc option \<times> manager" where
  "stop_watching now s =
     (if \<not> is_watching s \<or> observer s = None
      then (None, s\<lparr>stdout := stdout s @ [NotWatching]\<rparr>)
      else case stop_watching_body now s of
             (None, s1) \<Rightarrow> (None, s1)
           | (Some e, s1) \<Rightarrow>
               log_watch now ''stop_watching'' ''error''
                 [(''vault_path'', JStr (str_path (vault_path s)))] (Some (str_exc e))
                 (s1\<lparr>stdout := stdout s1 @ [WatchStopFailed (str_exc e)]\<rparr>))"

section \<open>The event handler and its timers\<close>

record fs_event =
  src_path :: string
  is_directory :: bool

text \<open>The two tests of \<open>VaultTreeEventHandler.on_any_event\<close>, lines 42 and 47.\<close>

definition ignored_event_path :: "string \<Rightarrow> bool" where
  "ignored_event_path p = (contains ''/.obsidian'' p \<or> contains ''/.git'' p)"

definition accepted :: "fs_event \<Rightarrow> bool" where
  "accepted event =
     (\<not> ignored_event_path (src_path event) \<and>
      (is_directory event \<or> list_ex (endswith (src_path event)) SUPPORTED_EXTENSIONS))"

text \<open>
  \<open>VaultTreeEventHandler.on_any_event\<close> at clock \<open>current_time\<close>: the handler it leaves
  and, when it starts a \<open>threading.Timer\<close>, the time at which that timer is due.
\<close>

definition on_any_event :: "handler \<Rightarrow> fs_event \<Rightarrow> real \<Rightarrow> handler \<times> real option" where
  "on_any_event h event current_time =
     (if ignored_event_path (src_path event) then (h, None)
      else if is_directory event \<or> list_ex (endswith (src_path event)) SUPPORTED_EXTENSIONS
      then (if current_time - last_update h > update_delay h
            then (h\<lparr>last_update := current_time\<rparr>, Some (current_time + update_delay h))
            else (h, None))
      else (h, None))"

text \<open>A sequence of events, each with the clock at its delivery, and the timers it starts.\<close>

fun deliver_all :: "handler \<Rightarrow> (real \<times> fs_event) list \<Rightarrow> handler \<times> real list" where
  "deliver_all h [] = (h, [])"
| "deliver_all h ((t, event) # rest) =
     (case on_any_event h event t of
        (h1, tm) \<Rightarrow>
          (case deliver_all h1 rest of
             (h2, tms) \<Rightarrow> (h2, (case tm of None \<Rightarrow> [] | Some due \<Rightarrow> [due]) @ tms)))"

text \<open>
  The observer thread hands an event to the handler scheduled on it while it is alive. A
  timer that is due calls \<open>update_tree_structure\<close>, whatever the state of the observer.
\<close>

definition deliver_event :: "real \<Rightarrow> fs_event \<Rightarrow> manager \<Rightarrow> manager" where
  "deliver_event now event s =
     (case (observer s, event_handler s) of
        (Some ob, Some h) \<Rightarrow>
          if alive ob
          then (case on_any_event h event now of
                  (h1, tm) \<Rightarrow> s\<lparr>event_handler := Some h1,
                                 timers := timers s @ (case tm of None \<Rightarrow> [] | Some due \<Rightarrow> [due])\<rparr>)
          else s
      | _ \<Rightarrow> s)"

definition fire_timers :: "real \<Rightarrow> real \<Rightarrow> manager \<Rightarrow> manager" where
  "fire_timers now dt s =
     foldl (\<lambda>s1 due. snd (update_tree_structure now dt s1))
       (s\<lparr>timers := filter (\<lambda>due. now < due) (timers s)\<rparr>)
       (filter (\<lambda>due. due \<le> now) (timers s))"

text \<open>The segments of a path string: \<open>p.split('/')\<close>.\<close>

fun split :: "char \<Rightarrow> string \<Rightarrow> string list" where
  "split c [] = [[]]"
| "split c (x # xs) =
     (if x = c then [] # split c xs
      else (case split c xs of [] \<Rightarrow> [[x]] | seg # segs \<Rightarrow> (x # seg) # segs))"

definition segments :: "string \<Rightarrow> string list" where
  "segments p = split (CHR ''/'') p"

section \<open>Examples\<close>

text \<open>
  The scenario of the specification: \<open>notes/a.md\<close>, \<open>notes/b.md\<close>, \<open>archive/old.md\<close> and
  \<open>.obsidian/config.json\<close>, listed in that order, and the lines of its tree body. Then a
  vault with one file of each kind of extension.
\<close>

definition scenario_vault :: contents where
  "scenario_vault =
     Listing [Dir ''notes'' (Listing [File ''a.md'', File ''b.md'']),
              Dir ''archive'' (Listing [File ''old.md'']),
              Dir ''.obsidian'' (Listing [File ''config.json''])]"

definition scenario_lines :: "tline list" where
  "scenario_lines =
     [Item [] False True ''archive'', Item cont_mid True False ''old.md'',
      Item [] True True ''notes'', Item cont_last False False ''a.md'',
      Item cont_last True False ''b.md'']"



text \<open>
  A handler created at time 0, and four events: a directory, a note, a note below
  \<open>.github\<close> and a note below \<open>node_modules\<close>.
\<close>

definition fresh_handler :: handler where
  "fresh_handler = \<lparr>last_update = 0, update_delay = 2\<rparr>"

definition folder_event :: fs_event where
  "folder_event = \<lparr>src_path = ''/vault/notes'', is_directory = True\<rparr>"

definition note_event :: fs_event where
  "note_event = \<lparr>src_path = ''/vault/notes/a.md'', is_directory = False\<rparr>"

definition github_event :: fs_event where
  "github_event = \<lparr>src_path = ''/vault/.github/notes.md'', is_directory = False\<rparr>"

definition node_modules_event :: fs_event where
  "node_modules_event = \<lparr>src_path = ''/vault/node_modules/readme.md'', is_directory = False\<rparr>"

text \<open>
  Log files that can all be read and written, and managers around them: one that is idle
  and one that is watching; with a JSON log that cannot be written; with a vault that
  cannot be listed; with a JSON log that cannot be parsed; and the watching one after a
  directory event at time 10.
\<close>

definition working_logs :: log_files where
  "working_logs = \<lparr>json_log = Missing, json_writable = True, markdown_log = Some [],
                    markdown_readable = True, markdown_writable = True\<rparr>"

definition idle_manager :: manager where
  "idle_manager =
     \<lparr>vault_path = [''/'', ''vault''], vault = Listing [File ''a.md''],
      tree_file = ''/home/tree.md'', tree_file_content = None, tree_file_writable = True,
      observer = None, is_watching = False, management_logger = working_logs,
      event_handler = None, timers = [], stdout = [], observers_created = 0,
      observer_starts = True\<rparr>"

definition watching_manager :: manager where
  "watching_manager =
     idle_manager\<lparr>observer := Some \<lparr>handle = 0, alive = True\<rparr>, is_watching := True,
                   event_handler := Some fresh_handler, observers_created := 1\<rparr>"

definition old_doc :: tree_doc where
  "old_doc = \<lparr>doc_path = [''/'', ''vault''], doc_time = 1, doc_stats = initial_stats,
               doc_body = []\<rparr>"

definition read_only_logs :: log_files where
  "read_only_logs = working_logs\<lparr>json_writable := False\<rparr>"

definition stuck_manager :: manager where
  "stuck_manager = idle_manager\<lparr>management_logger := read_only_logs,
                                tree_file_content := Some old_doc\<rparr>"

definition denied_manager :: manager where
  "denied_manager = idle_manager\<lparr>vault := Denied\<rparr>"



definition pending_manager :: manager where
  "pending_manager = deliver_event 10 folder_event watching_manager"

section \<open>Properties of the tree renderer\<close>

lemma child_entries_append:
  "child_entries pfx (xs @ ys) = child_entries pfx xs @ child_entries pfx ys"
  by (induction pfx xs rule: child_entries.induct) auto

lemma child_entries_deeper:
  "\<forall>l\<in>set ls. line_prefix l \<noteq> pfx \<Longrightarrow> child_entries pfx ls = []"
  by (induction pfx ls rule: child_entries.induct) auto

lemma lines_extend_prefix:
  "l \<in> set (generate_tree_structure dir c pfx) \<Longrightarrow> prefix pfx (line_prefix l)"
  "l \<in> set (render_items dir pfx items) \<Longrightarrow> prefix pfx (line_prefix l)"
proof (induction dir c pfx and dir pfx items rule: generate_tree_structure_render_items.induct)
  case (6 dir pfx item rest)
  then show ?case
    by (cases item) (auto simp: Let_def split: if_splits dest: append_prefixD)
qed (simp_all split: if_splits)

lemma cont_nonempty: "cont_last \<noteq> []" "cont_mid \<noteq> []"
  by (simp_all add: cont_last_def cont_mid_def)

lemma sub_block_no_child:
  assumes "ext \<noteq> []"
  shows "child_entries pfx (generate_tree_structure dir c (pfx @ ext)) = []"
proof (rule child_entries_deeper, rule ballI)
  fix l assume "l \<in> set (generate_tree_structure dir c (pfx @ ext))"
  then have "prefix (pfx @ ext) (line_prefix l)" by (rule lines_extend_prefix)
  then have "length (pfx @ ext) \<le> length (line_prefix l)" by (rule prefix_length_le)
  with assms show "line_prefix l \<noteq> pfx" by auto
qed

lemma child_entries_render_items:
  "child_entries pfx (render_items dir pfx items) = map (\<lambda>i. (is_dir i, node_name i)) items"
proof (induction items)
  case (Cons item rest)
  then show ?case
    by (cases item) (simp_all add: Let_def child_entries_append sub_block_no_child cont_nonempty)
qed simp

lemma directories_are_dirs:
  "map (\<lambda>i. (is_dir i, node_name i)) (directories dir es) =
   map (Pair True) (map node_name (directories dir es))"
  by (simp add: directories_def)

lemma files_are_files:
  "map (\<lambda>i. (is_dir i, node_name i)) (files dir es) =
   map (Pair False) (map node_name (files dir es))"
  using is_dir_not_is_file by (auto simp add: files_def)

text \<open>
  C6. In the rendering of any directory, with any prefix, the lines of its own entries are
  first those of its subdirectories (the ones not ignored), then those of its files (not
  ignored, with a supported extension), and the names in each group are in non-decreasing
  lexicographic order.
\<close>

theorem rendering_order:
  "child_entries pfx (generate_tree_structure dir (Listing es) pfx) =
     map (Pair True) (map node_name (directories dir es)) @
     map (Pair False) (map node_name (files dir es)) \<and>
   sorted (map node_name (directories dir es)) \<and>
   sorted (map node_name (files dir es))"
  by (simp add: child_entries_render_items all_items_def directories_are_dirs files_are_files)
     (simp add: directories_def files_def)

section \<open>Properties of the statistics\<close>




















section \<open>The scenario\<close>

lemma should_ignore_append: "should_ignore (a @ b) = (should_ignore a \<or> should_ignore b)"
  by (simp add: should_ignore_def)

lemma should_ignore_Cons2:
  "should_ignore (x # y # ys) = (should_ignore [x] \<or> should_ignore (y # ys))"
  by (simp add: should_ignore_def)

lemma should_ignore_names:
  "\<not> should_ignore [''notes'']" "\<not> should_ignore [''archive'']" "should_ignore [''.obsidian'']"
  "\<not> should_ignore [''a.md'']" "\<not> should_ignore [''b.md'']" "\<not> should_ignore [''old.md'']"
  by (simp_all add: should_ignore_def ignore_patterns_def startswith_def)

lemma supported_names: "supported ''a.md''" "supported ''b.md''" "supported ''old.md''"
  by code_simp+

lemma md_names:
  "path_suffix ''a.md'' = ''.md''" "path_suffix ''b.md'' = ''.md''" "path_suffix ''old.md'' = ''.md''"
  by code_simp+

lemma perm2: "mset xs = mset [a, b] \<Longrightarrow> xs = [a, b] \<or> xs = [b, a]"
proof -
  assume a: "mset xs = mset [a, b]"
  then have "length xs = 2" using mset_eq_length by fastforce
  then obtain x y where xs: "xs = [x, y]"
    by (auto simp: numeral_2_eq_2 length_Suc_conv)
  with a show ?thesis by (auto simp: add_eq_conv_ex)
qed

lemma perm3:
  "mset xs = mset [a, b, c] \<Longrightarrow>
   xs = [a, b, c] \<or> xs = [a, c, b] \<or> xs = [b, a, c] \<or> xs = [b, c, a] \<or>
   xs = [c, a, b] \<or> xs = [c, b, a]"
proof -
  assume a: "mset xs = mset [a, b, c]"
  then have "length xs = 3" using mset_eq_length by fastforce
  then obtain x y z where xs: "xs = [x, y, z]"
    by (auto simp: numeral_3_eq_3 length_Suc_conv)
  with a show ?thesis by (auto simp: add_eq_conv_ex)
qed

lemma scenario_counts:
  assumes "\<not> should_ignore vroot"
    and "mset ns = mset [File ''a.md'', File ''b.md'']"
    and "mset es = mset [Dir ''notes'' (Listing ns), Dir ''archive'' (Listing [File ''old.md'']),
                         Dir ''.obsidian'' (Listing [File ''config.json''])]"
  shows "count_items vroot (Listing es) =
           \<lparr>total_folders = 2, total_files = 3, md_files = 3, other_files = 0\<rparr>"
  using perm2 [OF assms(2)] perm3 [OF assms(3)] assms(1)
  by (elim disjE)
     (simp_all add: count_items_def should_ignore_append should_ignore_Cons2 should_ignore_names
        count_file_def md_names initial_stats_def)

lemma scenario_lines_eq:
  assumes "\<not> should_ignore vroot"
    and "mset ns = mset [File ''a.md'', File ''b.md'']"
    and "mset es = mset [Dir ''notes'' (Listing ns), Dir ''archive'' (Listing [File ''old.md'']),
                         Dir ''.obsidian'' (Listing [File ''config.json''])]"
  shows "generate_tree_structure vroot (Listing es) [] = scenario_lines"
  using perm2 [OF assms(2)] perm3 [OF assms(3)] assms(1)
  by (elim disjE)
     (simp_all add: scenario_lines_def all_items_def directories_def files_def visible_def
        should_ignore_append should_ignore_Cons2 should_ignore_names supported_names)

lemma scenario_text:
  "list_all (\<lambda>l. \<not> contains ''.obsidian'' l \<and> \<not> contains ''config.json'' l)
     (map line_text scenario_lines)"
  by code_simp

text \<open>
  C5, as amended. Take a root that holds exactly \<open>notes/a.md\<close>, \<open>notes/b.md\<close>,
  \<open>archive/old.md\<close> and \<open>.obsidian/config.json\<close>, its directories listed in any order.
  When no part of the root's own path is ignored, the counters are 2 folders, 3 files,
  3 markdown files and 0 other files, and the tree body is the five lines of \<open>archive\<close>,
  \<open>old.md\<close>, \<open>notes\<close>, \<open>a.md\<close> and \<open>b.md\<close>: no line mentions \<open>.obsidian\<close> or
  \<open>config.json\<close>.
\<close>

theorem scenario_statistics:
  assumes "\<not> should_ignore vroot"
    and "mset ns = mset [File ''a.md'', File ''b.md'']"
    and "mset es = mset [Dir ''notes'' (Listing ns), Dir ''archive'' (Listing [File ''old.md'']),
                         Dir ''.obsidian'' (Listing [File ''config.json''])]"
  shows "count_items vroot (Listing es) =
           \<lparr>total_folders = 2, total_files = 3, md_files = 3, other_files = 0\<rparr> \<and>
         generate_tree_structure vroot (Listing es) [] = scenario_lines \<and>
         list_all (\<lambda>l. \<not> contains ''.obsidian'' l \<and> \<not> contains ''config.json'' l)
           (map line_text (generate_tree_structure vroot (Listing es) []))"
  using scenario_counts [OF assms] scenario_lines_eq [OF assms] scenario_text
  by simp

theorem scenario_statistics_witness:
  "\<not> should_ignore [''/'', ''vault''] \<and>
   count_items [''/'', ''vault''] scenario_vault =
     \<lparr>total_folders = 2, total_files = 3, md_files = 3, other_files = 0\<rparr> \<and>
   generate_tree_structure [''/'', ''vault''] scenario_vault [] = scenario_lines"
proof -
  have h: "\<not> should_ignore [''/'', ''vault'']"
    by (simp add: should_ignore_def ignore_patterns_def startswith_def)
  show ?thesis
    using h scenario_statistics [OF h refl refl] by (simp add: scenario_vault_def)
qed

text \<open>
  C5 as stated fails for a root below a hidden directory: \<open>_should_ignore\<close> tests every
  part of the full path, the parts of the root included, so every entry is ignored and
  all four counters are 0.
\<close>

theorem scenario_counterexample:
  "count_items [''/'', ''home'', ''.vaults'', ''v''] scenario_vault =
     \<lparr>total_folders = 0, total_files = 0, md_files = 0, other_files = 0\<rparr> \<and>
   generate_tree_structure [''/'', ''home'', ''.vaults'', ''v''] scenario_vault [] = []"
  by code_simp

section \<open>Properties of the event handler\<close>

lemma split_nonempty: "split c p \<noteq> []"
  by (induction p) (auto split: list.splits)

lemma hd_split: "hd (split c p) = takeWhile (\<lambda>x. x \<noteq> c) p"
  using split_nonempty [of c] by (induction p) (auto split: list.splits)

lemma tl_split_Cons: "x \<noteq> c \<Longrightarrow> tl (split c (x # xs)) = tl (split c xs)"
  using split_nonempty [of c xs] by (auto split: list.splits)

lemma prefix_takeWhile:
  "c \<notin> set w \<Longrightarrow> prefix w (takeWhile (\<lambda>x. x \<noteq> c) xs) \<longleftrightarrow> prefix w xs"
proof (induction xs arbitrary: w)
  case Nil
  then show ?case by simp
next
  case (Cons x xs)
  then show ?case by (cases w) auto
qed

lemma contains_segments:
  assumes "c \<notin> set w"
  shows "contains (c # w) p \<longleftrightarrow> list_ex (prefix w) (tl (split c p))"
proof (induction p)
  case Nil
  then show ?case by simp
next
  case (Cons x xs)
  show ?case
  proof (cases "x = c")
    case True
    have "list_ex (prefix w) (split c xs) \<longleftrightarrow>
          prefix w (hd (split c xs)) \<or> list_ex (prefix w) (tl (split c xs))"
      using split_nonempty [of c xs] by (cases "split c xs") auto
    with True Cons assms show ?thesis
      by (simp add: hd_split prefix_takeWhile)
  next
    case False
    with Cons show ?thesis by (simp add: tl_split_Cons del: split.simps)
  qed
qed

text \<open>
  C2, as amended. Call a path hidden when some segment of it after the first separator
  starts with \<open>.obsidian\<close> or with \<open>.git\<close>; that is the test \<open>'/.obsidian' in path or
  '/.git' in path\<close>. The handler discards an event exactly when its path is hidden: a
  hidden path leaves the handler as it was and starts no timer, whatever the event and
  the clock. A path that is not hidden is not discarded by this rule, whatever other
  ignored names it holds: the handler starts a timer for it as soon as the event is of a
  directory or of a supported extension and arrives more than the delay after
  \<open>last_update\<close>, and only then.
\<close>

theorem event_filter_by_prefix:
  "(ignored_event_path (src_path event) \<longleftrightarrow>
      list_ex (\<lambda>seg. startswith seg ''.obsidian'' \<or> startswith seg ''.git'')
        (tl (segments (src_path event)))) \<and>
   (list_ex (\<lambda>seg. startswith seg ''.obsidian'' \<or> startswith seg ''.git'')
      (tl (segments (src_path event))) \<longrightarrow>
      on_any_event h event now = (h, None)) \<and>
   (\<not> list_ex (\<lambda>seg. startswith seg ''.obsidian'' \<or> startswith seg ''.git'')
        (tl (segments (src_path event))) \<longrightarrow>
      on_any_event h event now =
        (if (is_directory event \<or> list_ex (endswith (src_path event)) SUPPORTED_EXTENSIONS) \<and>
            now - last_update h > update_delay h
         then (h\<lparr>last_update := now\<rparr>, Some (now + update_delay h))
         else (h, None)))"
proof -
  have "contains ''/.obsidian'' (src_path event) \<longleftrightarrow>
        list_ex (prefix ''.obsidian'') (tl (segments (src_path event)))"
    unfolding segments_def by (rule contains_segments) simp
  moreover have "contains ''/.git'' (src_path event) \<longleftrightarrow>
        list_ex (prefix ''.git'') (tl (segments (src_path event)))"
    unfolding segments_def by (rule contains_segments) simp
  ultimately have iff: "ignored_event_path (src_path event) \<longleftrightarrow>
      list_ex (\<lambda>seg. startswith seg ''.obsidian'' \<or> startswith seg ''.git'')
        (tl (segments (src_path event)))"
    by (auto simp: ignored_event_path_def startswith_def list_ex_iff)
  show ?thesis
    unfolding iff [symmetric] by (simp add: on_any_event_def)
qed

theorem event_filter_by_prefix_witness:
  "list_ex (\<lambda>seg. startswith seg ''.obsidian'' \<or> startswith seg ''.git'')
     (tl (segments (src_path github_event))) \<and>
   on_any_event fresh_handler github_event 10 = (fresh_handler, None) \<and>
   \<not> list_ex (\<lambda>seg. startswith seg ''.obsidian'' \<or> startswith seg ''.git'')
       (tl (segments (src_path node_modules_event))) \<and>
   on_any_event fresh_handler node_modules_event 10 =
     (fresh_handler\<lparr>last_update := 10\<rparr>, Some 12)"
proof -
  have h1: "list_ex (\<lambda>seg. startswith seg ''.obsidian'' \<or> startswith seg ''.git'')
     (tl (segments (src_path github_event)))"
    by (simp add: github_event_def segments_def startswith_def)
  have h2: "\<not> list_ex (\<lambda>seg. startswith seg ''.obsidian'' \<or> startswith seg ''.git'')
       (tl (segments (src_path node_modules_event)))"
    by (simp add: node_modules_event_def segments_def startswith_def)
  have e: "is_directory node_modules_event \<or>
           list_ex (endswith (src_path node_modules_event)) SUPPORTED_EXTENSIONS"
    by (simp add: node_modules_event_def SUPPORTED_EXTENSIONS_def endswith_def suffix_to_prefix)
  show ?thesis
    using h1 h2 e
      event_filter_by_prefix [of github_event fresh_handler 10]
      event_filter_by_prefix [of node_modules_event fresh_handler 10]
    by (simp add: fresh_handler_def)
qed

text \<open>
  C2 as stated fails both ways. The path \<open>/vault/.github/notes.md\<close> is discarded although
  none of its segments is an ignored name; the path \<open>/vault/node_modules/readme.md\<close> has
  the ignored segment \<open>node_modules\<close> and is not discarded: it starts a timer.
\<close>

theorem event_filter_counterexample:
  "ignored_event_path (src_path github_event) \<and>
   on_any_event fresh_handler github_event 10 = (fresh_handler, None) \<and>
   \<not> list_ex (\<lambda>seg. seg \<in> set ignore_patterns) (segments (src_path github_event)) \<and>
   list_ex (\<lambda>seg. seg \<in> set ignore_patterns) (segments (src_path node_modules_event)) \<and>
   \<not> ignored_event_path (src_path node_modules_event) \<and>
   on_any_event fresh_handler node_modules_event 10 =
     (fresh_handler\<lparr>last_update := 10\<rparr>, Some 12)"
  by (simp add: github_event_def node_modules_event_def fresh_handler_def on_any_event_def
        ignored_event_path_def segments_def ignore_patterns_def SUPPORTED_EXTENSIONS_def
        endswith_def suffix_to_prefix)

lemma on_any_event_gate_closed:
  "current_time - last_update h \<le> update_delay h \<Longrightarrow> on_any_event h event current_time = (h, None)"
  by (simp add: on_any_event_def)

lemma on_any_event_gate_open:
  "accepted event \<Longrightarrow> current_time - last_update h > update_delay h \<Longrightarrow>
   on_any_event h event current_time =
     (h\<lparr>last_update := current_time\<rparr>, Some (current_time + update_delay h))"
  by (auto simp: on_any_event_def accepted_def)

lemma deliver_all_absorbed:
  "\<forall>(t, event) \<in> set evs. t - last_update h \<le> update_delay h \<Longrightarrow> deliver_all h evs = (h, [])"
  by (induction evs) (auto simp: on_any_event_gate_closed)

lemma deliver_all_first_opens:
  assumes "accepted event" and "t - last_update h > update_delay h"
    and "\<forall>(t', event') \<in> set rest. \<bar>t - t'\<bar> < update_delay h"
  shows "deliver_all h ((t, event) # rest) =
           (h\<lparr>last_update := t\<rparr>, [t + update_delay h])"
proof -
  have "\<forall>(t', event') \<in> set rest.
          t' - last_update (h\<lparr>last_update := t\<rparr>) \<le> update_delay (h\<lparr>last_update := t\<rparr>)"
    using assms(3) by auto
  then have "deliver_all (h\<lparr>last_update := t\<rparr>) rest = (h\<lparr>last_update := t\<rparr>, [])"
    by (rule deliver_all_absorbed)
  with assms(1,2) show ?thesis by (simp add: on_any_event_gate_open)
qed

lemma deliver_all_at_most_one:
  assumes "\<forall>(t, event) \<in> set evs. accepted event"
    and "\<forall>(t, event) \<in> set evs. \<forall>(t', event') \<in> set evs. \<bar>t - t'\<bar> < update_delay h"
  shows "length (snd (deliver_all h evs)) \<le> 1"
  using assms
proof (induction evs)
  case Nil
  then show ?case by simp
next
  case (Cons x evs)
  obtain t event where x: "x = (t, event)" by (cases x)
  show ?case
  proof (cases "t - last_update h > update_delay h")
    case True
    have "deliver_all h ((t, event) # evs) = (h\<lparr>last_update := t\<rparr>, [t + update_delay h])"
      using Cons.prems True x by (intro deliver_all_first_opens) auto
    with x show ?thesis by simp
  next
    case False
    then have "on_any_event h event t = (h, None)"
      by (simp add: on_any_event_gate_closed)
    moreover have "length (snd (deliver_all h evs)) \<le> 1"
      using Cons.prems by (intro Cons.IH) auto
    ultimately show ?thesis using x by (simp split: prod.splits)
  qed
qed

lemma accepted_examples: "accepted folder_event" "accepted note_event"
  by (simp_all add: accepted_def folder_event_def note_event_def ignored_event_path_def
        SUPPORTED_EXTENSIONS_def endswith_def suffix_to_prefix)

text \<open>
  C1, as amended. For accepted events that all arrive within less than the delay of each
  other, the handler starts at most one timer. When the first of them arrives more than
  the delay after the handler's \<open>last_update\<close>, it starts exactly one, due one delay after
  that first event; the later events start no timer and leave that due time as it is.
\<close>

theorem debounce_single_flight:
  assumes "\<forall>(t, event) \<in> set evs. accepted event"
    and "\<forall>(t, event) \<in> set evs. \<forall>(t', event') \<in> set evs. \<bar>t - t'\<bar> < update_delay h"
  shows "length (snd (deliver_all h evs)) \<le> 1 \<and>
         (\<forall>t0 event0 rest. evs = (t0, event0) # rest \<and> t0 - last_update h > update_delay h \<longrightarrow>
            deliver_all h evs = (h\<lparr>last_update := t0\<rparr>, [t0 + update_delay h]))"
proof (intro conjI allI impI)
  show "length (snd (deliver_all h evs)) \<le> 1"
    using assms by (rule deliver_all_at_most_one)
next
  fix t0 event0 rest
  assume a: "evs = (t0, event0) # rest \<and> t0 - last_update h > update_delay h"
  then have e: "evs = (t0, event0) # rest" and g: "t0 - last_update h > update_delay h"
    by simp_all
  have "accepted event0" using assms(1) e by simp
  moreover have "\<forall>(t', event') \<in> set rest. \<bar>t0 - t'\<bar> < update_delay h"
    using assms(2) e by auto
  ultimately have "deliver_all h ((t0, event0) # rest) =
      (h\<lparr>last_update := t0\<rparr>, [t0 + update_delay h])"
    using g by (intro deliver_all_first_opens)
  with e show "deliver_all h evs = (h\<lparr>last_update := t0\<rparr>, [t0 + update_delay h])"
    by simp
qed

theorem debounce_single_flight_witness:
  "accepted folder_event \<and> accepted note_event \<and>
   \<bar>10 - 11\<bar> < update_delay fresh_handler \<and>
   10 - last_update fresh_handler > update_delay fresh_handler \<and>
   deliver_all fresh_handler [(10, folder_event), (11, note_event)] =
     (fresh_handler\<lparr>last_update := 10\<rparr>, [12])"
proof -
  have h1: "\<forall>(t, event) \<in> set [(10::real, folder_event), (11, note_event)]. accepted event"
    by (simp add: accepted_examples)
  have h2: "\<forall>(t, event) \<in> set [(10::real, folder_event), (11, note_event)].
      \<forall>(t', event') \<in> set [(10, folder_event), (11, note_event)].
        \<bar>t - t'\<bar> < update_delay fresh_handler"
    by (simp add: fresh_handler_def)
  have h3: "10 - last_update fresh_handler > update_delay fresh_handler"
    by (simp add: fresh_handler_def)
  show ?thesis
    using debounce_single_flight [OF h1 h2] h3 accepted_examples
    by (simp add: fresh_handler_def)
qed

text \<open>
  C1 as stated fails while the gate is closed: \<open>last_update\<close> starts as the time the
  handler is created, so two accepted events 1 and 1.5 time units after that start no
  timer at all.
\<close>

theorem debounce_counterexample:
  "accepted folder_event \<and> accepted note_event \<and>
   \<bar>1 - 3 / 2\<bar> < update_delay fresh_handler \<and>
   deliver_all fresh_handler [(1, folder_event), (3 / 2, note_event)] = (fresh_handler, [])"
  by (simp add: accepted_examples fresh_handler_def on_any_event_def)

section \<open>Properties of the tree manager\<close>

lemma fixed_commands:
  "\<not> template_error ''generate_tree''" "\<not> template_error ''start_watching''"
  "\<not> template_error ''stop_watching''"
  by simp_all

lemma list_ex_drop_append:
  "\<not> list_ex P xs \<Longrightarrow> \<not> P x \<Longrightarrow> \<not> list_ex P (drop k (xs @ [x]))"
  by (auto simp: list_ex_iff dest!: in_set_dropD)

lemma log_activity_usable:
  assumes "usable lf" and "duration entry \<noteq> None" and "\<not> template_error (command entry)"
  shows "fst (log_activity entry lf) = None" and "usable (snd (log_activity entry lf))"
proof -
  have c: "\<not> list_ex template_error (map command (case json_log lf of Holds xs \<Rightarrow> xs | _ \<Rightarrow> []))"
    using assms(1) by (cases "json_log lf") (simp_all add: usable_def logged_commands_def)
  have k: "\<And>k. \<not> list_ex template_error
      (map command (drop k ((case json_log lf of Holds xs \<Rightarrow> xs | _ \<Rightarrow> []) @ [entry])))"
    using list_ex_drop_append [OF c, of "command entry"] assms(3)
    by (simp add: drop_map [symmetric])
  show "fst (log_activity entry lf) = None"
    using assms(1,2) k [of 0] k
    by (cases "json_log lf")
       (auto simp: log_activity_def append_json_log_def append_markdown_log_def
          update_statistics_def usable_def logged_commands_def Let_def)
  show "usable (snd (log_activity entry lf))"
    using assms(1,2) k [of 0] k
    by (cases "json_log lf")
       (auto simp: log_activity_def append_json_log_def append_markdown_log_def
          update_statistics_def usable_def logged_commands_def Let_def)
qed


lemma log_activity_unwritable:
  "\<not> json_writable lf \<Longrightarrow> json_log lf = Missing \<Longrightarrow>
   log_activity entry lf =
     (Some (Exc ''cannot open management_activities.json for writing''), lf)"
  by (simp add: log_activity_def append_json_log_def Let_def)

lemma generate_frame:
  "\<exists>lf. snd (generate_tree_markdown now dt s) = s\<lparr>management_logger := lf\<rparr>"
  by (auto simp: generate_tree_markdown_def Let_def split: prod.splits option.splits)

lemma generate_returns:
  assumes "fst (log_activity (generate_tree_entry now dt s) (management_logger s)) = None"
  shows "fst (generate_tree_markdown now dt s) = Inr (rendered_doc now s)"
proof -
  obtain lf where "log_activity (generate_tree_entry now dt s) (management_logger s) = (None, lf)"
    using assms by (cases "log_activity (generate_tree_entry now dt s) (management_logger s)") auto
  then show ?thesis by (simp add: generate_tree_markdown_def Let_def)
qed

lemma generate_tree_entry_fields:
  "duration (generate_tree_entry now dt s) \<noteq> None"
  "command (generate_tree_entry now dt s) = ''generate_tree''"
  by (simp_all add: generate_tree_entry_def Let_def)

lemma generate_usable:
  assumes "usable (management_logger s)"
  shows "fst (generate_tree_markdown now dt s) = Inr (rendered_doc now s)"
    and "usable (management_logger (snd (generate_tree_markdown now dt s)))"
proof -
  have c: "\<not> template_error (command (generate_tree_entry now dt s))"
    by (simp only: generate_tree_entry_fields fixed_commands) simp
  obtain lf where lf: "log_activity (generate_tree_entry now dt s) (management_logger s) = (None, lf)"
    and u: "usable lf"
    using log_activity_usable [OF assms generate_tree_entry_fields(1) c]
    by (cases "log_activity (generate_tree_entry now dt s) (management_logger s)") auto
  show "fst (generate_tree_markdown now dt s) = Inr (rendered_doc now s)"
    using lf by (simp add: generate_tree_markdown_def Let_def)
  show "usable (management_logger (snd (generate_tree_markdown now dt s)))"
    using lf u by (simp add: generate_tree_markdown_def Let_def)
qed

lemma update_never_raises: "fst (update_tree_structure now dt s) = None"
  by (simp add: update_tree_structure_def split: prod.splits option.splits)

lemma update_body_failed_generation:
  assumes "fst (generate_tree_markdown now dt s) = Inl e"
  shows "\<exists>lf. update_tree_body now dt s = (Some e, s\<lparr>management_logger := lf\<rparr>)"
proof -
  obtain lf where "snd (generate_tree_markdown now dt s) = s\<lparr>management_logger := lf\<rparr>"
    using generate_frame by blast
  with assms have "generate_tree_markdown now dt s = (Inl e, s\<lparr>management_logger := lf\<rparr>)"
    by (simp add: prod_eq_iff)
  then show ?thesis by (auto simp: update_tree_body_def)
qed

lemma usable_working: "usable working_logs"
  by (simp add: usable_def working_logs_def logged_commands_def)



lemma update_usable_state:
  assumes "usable (management_logger s)" and "tree_file_writable s"
  shows "\<exists>lf. update_tree_structure now dt s =
           (None, s\<lparr>management_logger := lf,
                     tree_file_content := Some (rendered_doc now s),
                     stdout := stdout s @ [TreeUpdated]\<rparr>)"
proof -
  obtain r s1 where g: "generate_tree_markdown now dt s = (r, s1)"
    by (cases "generate_tree_markdown now dt s")
  obtain lf where s1: "s1 = s\<lparr>management_logger := lf\<rparr>"
    using generate_frame [of now dt s] g by auto
  have "update_tree_structure now dt s =
           (None, s\<lparr>management_logger := lf,
                     tree_file_content := Some (rendered_doc now s),
                     stdout := stdout s @ [TreeUpdated]\<rparr>)"
    using g s1 generate_usable(1) [OF assms(1), of now dt] assms(2)
    by (simp add: update_tree_structure_def update_tree_body_def)
  then show ?thesis by blast
qed





lemma stop_watching_usable_state:
  assumes "usable (management_logger s)" and "is_watching s" and "observer s = Some ob"
  shows "\<exists>lf. usable lf \<and> stop_watching now s =
           (None, s\<lparr>observer := Some (ob\<lparr>alive := False\<rparr>), is_watching := False,
                     stdout := stdout s @ [WatchStopped], management_logger := lf\<rparr>)"
proof -
  let ?entry = "\<lparr>timestamp = now, command = ''stop_watching'', status = ''success'',
                 summary = [(''vault_path'', JStr (str_path (vault_path s)))],
                 duration = Some (1 / 10), error = None\<rparr>"
  have d: "duration ?entry \<noteq> None" by simp
  have c: "\<not> template_error (command ?entry)" by simp
  obtain lf where lf: "log_activity ?entry (management_logger s) = (None, lf)" and u: "usable lf"
    using log_activity_usable [OF assms(1) d c]
    by (cases "log_activity ?entry (management_logger s)") auto
  have "stop_watching now s =
           (None, s\<lparr>observer := Some (ob\<lparr>alive := False\<rparr>), is_watching := False,
                     stdout := stdout s @ [WatchStopped], management_logger := lf\<rparr>)"
    using assms(2,3) lf
    by (simp add: stop_watching_def stop_watching_body_def log_watch_def)
  with u show ?thesis by blast
qed


lemma generate_unwritable:
  "\<not> json_writable (management_logger s) \<Longrightarrow> json_log (management_logger s) = Missing \<Longrightarrow>
   generate_tree_markdown now dt s =
     (Inl (Exc ''cannot open management_activities.json for writing''), s)"
  by (simp add: generate_tree_markdown_def Let_def log_activity_unwritable)


lemma generate_stuck:
  "fst (generate_tree_markdown now dt stuck_manager) =
     Inl (Exc ''cannot open management_activities.json for writing'')"
  by (simp add: generate_unwritable stuck_manager_def idle_manager_def read_only_logs_def
        working_logs_def)

lemma pending_timers: "timers pending_manager = [12]"
  by (simp add: pending_manager_def deliver_event_def watching_manager_def idle_manager_def
        fresh_handler_def on_any_event_gate_open accepted_examples)

lemma pending_watching:
  "is_watching pending_manager" "observer pending_manager = Some \<lparr>handle = 0, alive = True\<rparr>"
  "usable (management_logger pending_manager)" "tree_file_writable pending_manager"
  "tree_file_content pending_manager = None"
  by (simp_all add: pending_manager_def deliver_event_def watching_manager_def idle_manager_def
        fresh_handler_def usable_working split: prod.splits)

lemma render_items_around:
  "\<exists>before. \<forall>c. render_items dir pfx (xs @ Dir n c # rest) =
     before @
     generate_tree_structure (dir @ [n]) c (pfx @ (if rest = [] then cont_last else cont_mid)) @
     render_items dir pfx rest"
proof (induction xs)
  case Nil
  have "\<forall>c. render_items dir pfx ([] @ Dir n c # rest) =
     [Item pfx (rest = []) True n] @
     generate_tree_structure (dir @ [n]) c (pfx @ (if rest = [] then cont_last else cont_mid)) @
     render_items dir pfx rest"
    by (simp add: Let_def)
  then show ?case by blast
next
  case (Cons x xs)
  then obtain before where b: "\<forall>c. render_items dir pfx (xs @ Dir n c # rest) =
     before @
     generate_tree_structure (dir @ [n]) c (pfx @ (if rest = [] then cont_last else cont_mid)) @
     render_items dir pfx rest"
    by blast
  have "\<forall>c. render_items dir pfx ((x # xs) @ Dir n c # rest) =
     (Item pfx False (is_dir x) (node_name x) #
        (case x of Dir m c' \<Rightarrow> generate_tree_structure (dir @ [m]) c' (pfx @ cont_mid)
                 | Link m c' \<Rightarrow> generate_tree_structure (dir @ [m]) c' (pfx @ cont_mid)
                 | _ \<Rightarrow> []) @ before) @
     generate_tree_structure (dir @ [n]) c (pfx @ (if rest = [] then cont_last else cont_mid)) @
     render_items dir pfx rest"
    using b by (simp add: Let_def)
  then show ?case by blast
qed

lemma log_activity_bad_escape:
  "fst (log_activity
         \<lparr>timestamp = 5, command = [CHR ''a'', CHR 0x5C, CHR ''q''], status = ''success'',
          summary = [], duration = Some 0, error = None\<rparr> working_logs) =
     Some (Exc ''bad escape in the replacement template'')"
  by (simp add: log_activity_def append_json_log_def append_markdown_log_def
        update_statistics_def logged_commands_def working_logs_def Let_def ascii_letter_def
        digit_def)

lemma log_activity_not_list:
  "fst (log_activity entry (working_logs\<lparr>json_log := NotList ''dict''\<rparr>)) =
     Some (Exc ([CHR 0x27] @ ''dict'' @ [CHR 0x27] @ '' object has no attribute '' @
                [CHR 0x27] @ ''append'' @ [CHR 0x27]))"
  by (simp add: log_activity_def append_json_log_def)

text \<open>
  C3, as amended. A failure to list a directory, the root included, becomes one marker
  line, and so does a failure to read the status of its entries: the renderer raises
  nothing. Around a subdirectory, the lines of the entries before and after it are the
  same whatever listing it does: the walk goes on with its siblings. So a failure to read
  the root does not reach the caller: whenever recording the render in the activity log
  does not raise, \<open>generate_tree_markdown\<close> returns the document whose body is that
  rendering.
\<close>

theorem failures_become_markers:
  "generate_tree_structure dir Denied pfx = [DeniedMark pfx] \<and>
   generate_tree_structure dir (Failed msg) pfx = [ErrorMark pfx msg] \<and>
   (generate_tree_structure dir (Unsearchable names) pfx = [] \<or>
    generate_tree_structure dir (Unsearchable names) pfx = [DeniedMark pfx]) \<and>
   (\<exists>before. \<forall>c. render_items dir pfx (xs @ Dir n c # rest) =
      before @
      generate_tree_structure (dir @ [n]) c (pfx @ (if rest = [] then cont_last else cont_mid)) @
      render_items dir pfx rest) \<and>
   (fst (log_activity (generate_tree_entry now dt s) (management_logger s)) = None \<longrightarrow>
      fst (generate_tree_markdown now dt s) = Inr (rendered_doc now s))"
  using render_items_around [of dir pfx xs n rest] generate_returns [of now dt s]
  by simp

theorem failures_become_markers_witness:
  "fst (log_activity (generate_tree_entry 5 0 denied_manager)
          (management_logger denied_manager)) = None \<and>
   fst (generate_tree_markdown 5 0 denied_manager) =
     Inr \<lparr>doc_path = [''/'', ''vault''], doc_time = 5, doc_stats = initial_stats,
          doc_body = [line_text (DeniedMark [])]\<rparr>"
proof -
  have u: "usable (management_logger denied_manager)"
    by (simp add: denied_manager_def idle_manager_def usable_working)
  have c: "\<not> template_error (command (generate_tree_entry 5 0 denied_manager))"
    by (simp only: generate_tree_entry_fields fixed_commands) simp
  have h: "fst (log_activity (generate_tree_entry 5 0 denied_manager)
          (management_logger denied_manager)) = None"
    using u generate_tree_entry_fields(1) c by (rule log_activity_usable(1))
  show ?thesis
    using h failures_become_markers [of "[]" "[]" "[]" "[]" "[]" "[]" "[]" 5 0 denied_manager]
    by (simp add: rendered_doc_def denied_manager_def idle_manager_def count_items_def)
qed

text \<open>
  C3 as stated fails at the root: with a root that cannot be listed, the render returns
  a document whose tree body is the permission marker, and \<open>update_tree_structure\<close>
  writes it and reports success.
\<close>

theorem root_failure_counterexample:
  "vault denied_manager = Denied \<and>
   fst (generate_tree_markdown 5 0 denied_manager) =
     Inr \<lparr>doc_path = [''/'', ''vault''], doc_time = 5, doc_stats = initial_stats,
          doc_body = [line_text (DeniedMark [])]\<rparr> \<and>
   fst (update_tree_structure 5 0 denied_manager) = None \<and>
   stdout (snd (update_tree_structure 5 0 denied_manager)) = [TreeUpdated]"
proof -
  have u: "usable (management_logger denied_manager)"
    by (simp add: denied_manager_def idle_manager_def usable_working)
  have w: "tree_file_writable denied_manager"
    by (simp add: denied_manager_def idle_manager_def)
  obtain lf where up: "update_tree_structure 5 0 denied_manager =
           (None, denied_manager\<lparr>management_logger := lf,
                     tree_file_content := Some (rendered_doc 5 denied_manager),
                     stdout := stdout denied_manager @ [TreeUpdated]\<rparr>)"
    using update_usable_state [OF u w, of 5 0] by blast
  show ?thesis
    using up generate_usable(1) [OF u, of 5 0]
    by (simp add: rendered_doc_def denied_manager_def idle_manager_def count_items_def)
qed




text \<open>
  C7, as amended. Called while watching, \<open>stop_watching\<close> ends the observer thread and
  clears \<open>is_watching\<close>, after which no event reaches the handler; it leaves every
  pending timer in place.
\<close>

theorem stop_keeps_timers:
  assumes "is_watching s" and "observer s = Some ob"
  shows "\<not> is_watching (snd (stop_watching now s)) \<and>
         observer (snd (stop_watching now s)) = Some (ob\<lparr>alive := False\<rparr>) \<and>
         deliver_event t event (snd (stop_watching now s)) = snd (stop_watching now s) \<and>
         timers (snd (stop_watching now s)) = timers s"
  using assms
  by (auto simp: stop_watching_def stop_watching_body_def log_watch_def deliver_event_def
           split: prod.splits option.splits)

theorem stop_keeps_timers_witness:
  "is_watching pending_manager \<and>
   observer pending_manager = Some \<lparr>handle = 0, alive = True\<rparr> \<and>
   \<not> is_watching (snd (stop_watching 11 pending_manager)) \<and>
   observer (snd (stop_watching 11 pending_manager)) = Some \<lparr>handle = 0, alive = False\<rparr> \<and>
   timers (snd (stop_watching 11 pending_manager)) = [12]"
  using stop_keeps_timers [OF pending_watching(1,2), of 11] pending_watching(1,2) pending_timers
  by simp

text \<open>
  C7 as stated fails: a timer started at time 10 and due at 12 is still pending after
  \<open>stop_watching\<close> at 11, and at 12 it fires and writes the output file.
\<close>

theorem stop_counterexample:
  "is_watching pending_manager \<and>
   timers pending_manager = [12] \<and>
   fst (stop_watching 11 pending_manager) = None \<and>
   \<not> is_watching (snd (stop_watching 11 pending_manager)) \<and>
   tree_file_content (snd (stop_watching 11 pending_manager)) = None \<and>
   tree_file_content (fire_timers 12 0 (snd (stop_watching 11 pending_manager))) =
     Some \<lparr>doc_path = [''/'', ''vault''], doc_time = 12,
           doc_stats = \<lparr>total_folders = 0, total_files = 1, md_files = 1, other_files = 0\<rparr>,
           doc_body = [line_text (Item [] True False ''a.md'')]\<rparr> \<and>
   stdout (fire_timers 12 0 (snd (stop_watching 11 pending_manager))) =
     [WatchStopped, TreeUpdated]"
proof -
  obtain lf where u: "usable lf" and st: "stop_watching 11 pending_manager =
      (None, pending_manager\<lparr>observer := Some (\<lparr>handle = 0, alive = True\<rparr>\<lparr>alive := False\<rparr>),
                is_watching := False,
                stdout := stdout pending_manager @ [WatchStopped], management_logger := lf\<rparr>)"
    using stop_watching_usable_state [OF pending_watching(3,1,2), of 11] by blast
  let ?s2 = "pending_manager\<lparr>observer := Some (\<lparr>handle = 0, alive = True\<rparr>\<lparr>alive := False\<rparr>),
                is_watching := False,
                stdout := stdout pending_manager @ [WatchStopped], management_logger := lf\<rparr>"
  have fire: "fire_timers 12 0 ?s2 = snd (update_tree_structure 12 0 (?s2\<lparr>timers := []\<rparr>))"
    by (simp add: fire_timers_def pending_timers)
  obtain lf' where up: "update_tree_structure 12 0 (?s2\<lparr>timers := []\<rparr>) =
           (None, (?s2\<lparr>timers := []\<rparr>)\<lparr>management_logger := lf',
                     tree_file_content := Some (rendered_doc 12 (?s2\<lparr>timers := []\<rparr>)),
                     stdout := stdout (?s2\<lparr>timers := []\<rparr>) @ [TreeUpdated]\<rparr>)"
    using update_usable_state [of "?s2\<lparr>timers := []\<rparr>" 12 0] u pending_watching(4)
    by auto
  have vp: "vault_path pending_manager = [''/'', ''vault'']" "vault pending_manager = Listing [File ''a.md'']"
    "stdout pending_manager = []"
    by (simp_all add: pending_manager_def deliver_event_def watching_manager_def idle_manager_def
        fresh_handler_def split: prod.splits)
  have cnt: "count_items [''/'', ''vault''] (Listing [File ''a.md'']) =
       \<lparr>total_folders = 0, total_files = 1, md_files = 1, other_files = 0\<rparr>"
    by code_simp
  have lines: "generate_tree_structure [''/'', ''vault''] (Listing [File ''a.md'']) [] =
       [Item [] True False ''a.md'']"
    by code_simp
  show ?thesis
    using st fire up pending_watching(1,5) pending_timers
    by (simp add: rendered_doc_def vp cnt lines
          del: generate_tree_structure.simps line_text.simps)
qed

text \<open>
  C8. Called while a session is active, \<open>start_watching\<close> returns normally and changes
  nothing but the output, to which it adds the warning: the observer is the same, no
  observer is created, \<open>is_watching\<close> stays true, and neither the output file nor the log
  files are written.
\<close>

theorem start_while_active:
  assumes "is_watching s"
  shows "start_watching now dt s = (None, s\<lparr>stdout := stdout s @ [AlreadyWatching]\<rparr>) \<and>
         observer (snd (start_watching now dt s)) = observer s \<and>
         observers_created (snd (start_watching now dt s)) = observers_created s \<and>
         is_watching (snd (start_watching now dt s)) \<and>
         tree_file_content (snd (start_watching now dt s)) = tree_file_content s \<and>
         management_logger (snd (start_watching now dt s)) = management_logger s"
  using assms by (simp add: start_watching_def)

theorem start_while_active_witness:
  "is_watching watching_manager \<and>
   start_watching 20 0 watching_manager =
     (None, watching_manager\<lparr>stdout := [AlreadyWatching]\<rparr>)"
proof -
  have h: "is_watching watching_manager"
    by (simp add: watching_manager_def)
  show ?thesis
    using h start_while_active [OF h, of 20 0]
    by (simp add: watching_manager_def idle_manager_def)
qed

text \<open>
  C9. \<open>update_tree_structure\<close> never raises. When the generation of the markdown raises,
  the output file keeps its content and the failure is printed.
\<close>

theorem update_tree_structure_never_raises:
  "fst (update_tree_structure now dt s) = None \<and>
   (\<forall>e. fst (generate_tree_markdown now dt s) = Inl e \<longrightarrow>
      tree_file_content (snd (update_tree_structure now dt s)) = tree_file_content s \<and>
      stdout (snd (update_tree_structure now dt s)) = stdout s @ [TreeUpdateFailed (str_exc e)])"
proof (intro conjI allI impI)
  show "fst (update_tree_structure now dt s) = None" by (rule update_never_raises)
next
  fix e assume "fst (generate_tree_markdown now dt s) = Inl e"
  then obtain lf where "update_tree_body now dt s = (Some e, s\<lparr>management_logger := lf\<rparr>)"
    using update_body_failed_generation by blast
  then show "tree_file_content (snd (update_tree_structure now dt s)) = tree_file_content s"
    and "stdout (snd (update_tree_structure now dt s)) = stdout s @ [TreeUpdateFailed (str_exc e)]"
    by (simp_all add: update_tree_structure_def)
qed

theorem update_tree_structure_never_raises_witness:
  "fst (generate_tree_markdown 5 0 stuck_manager) =
     Inl (Exc ''cannot open management_activities.json for writing'') \<and>
   tree_file_content (snd (update_tree_structure 5 0 stuck_manager)) = Some old_doc \<and>
   stdout (snd (update_tree_structure 5 0 stuck_manager)) =
     [TreeUpdateFailed ''cannot open management_activities.json for writing'']"
  using update_tree_structure_never_raises [of 5 0 stuck_manager] generate_stuck [of 5 0]
  by (simp add: stuck_manager_def idle_manager_def)

end